theory Spec2Isabelle
  imports Main "HOL-Library.Word"
begin

section \<open>micro-dns: a shallow embedding of main.go\<close>

text \<open>
  Strings are Go strings: sequences of bytes (\<open>char list\<close>), UTF-8 where they hold text.
  The functions of this first section are the library functions that \<open>main.go\<close> calls
  (packages \<open>strings\<close>, \<open>strconv\<close>, \<open>net\<close> of the Go standard library and
  \<open>github.com/miekg/dns\<close>); they are written out here from their documented behaviour,
  since the program's own functions are defined in terms of them.
\<close>

subsection \<open>Bytes\<close>

definition byte :: "char \<Rightarrow> int" where
  "byte c = of_char c"

definition is_digit :: "char \<Rightarrow> bool" where
  "is_digit c = (48 \<le> byte c \<and> byte c \<le> 57)"

definition digit_val :: "char \<Rightarrow> int" where
  "digit_val c = byte c - 48"

definition is_upper :: "char \<Rightarrow> bool" where
  "is_upper c = (65 \<le> byte c \<and> byte c \<le> 90)"

definition is_lower :: "char \<Rightarrow> bool" where
  "is_lower c = (97 \<le> byte c \<and> byte c \<le> 122)"

subsection \<open>Package strings\<close>

text \<open>
  \<open>space_width s\<close> is the number of bytes of the white-space rune at the head of \<open>s\<close>,
  and 0 when \<open>s\<close> does not start with one. White space is Go's \<open>unicode.IsSpace\<close>:
  the six ASCII characters TAB, LF, VT, FF, CR and SPACE, then U+0085 and U+00A0
  (\<open>C2 85\<close>, \<open>C2 A0\<close> in UTF-8), U+1680 (\<open>E1 9A 80\<close>), U+2000 to U+200A, U+2028, U+2029
  and U+202F (\<open>E2 80 xx\<close>), U+205F (\<open>E2 81 9F\<close>) and U+3000 (\<open>E3 80 80\<close>).
\<close>

definition space_width :: "string \<Rightarrow> nat" where
  "space_width s =
     (case map byte (take 3 s) of
        [] \<Rightarrow> 0
      | b0 # r1 \<Rightarrow>
          if b0 = 9 \<or> b0 = 10 \<or> b0 = 11 \<or> b0 = 12 \<or> b0 = 13 \<or> b0 = 32 then 1
          else (case r1 of
             [] \<Rightarrow> 0
           | b1 # r2 \<Rightarrow>
               if b0 = 0xC2 \<and> (b1 = 0x85 \<or> b1 = 0xA0) then 2
               else (case r2 of
                  [] \<Rightarrow> 0
                | b2 # _ \<Rightarrow>
                    if b0 = 0xE1 \<and> b1 = 0x9A \<and> b2 = 0x80 then 3
                    else if b0 = 0xE2 \<and> b1 = 0x80 \<and>
                            (0x80 \<le> b2 \<and> b2 \<le> 0x8A \<or> b2 = 0xA8 \<or> b2 = 0xA9 \<or> b2 = 0xAF)
                      then 3
                    else if b0 = 0xE2 \<and> b1 = 0x81 \<and> b2 = 0x9F then 3
                    else if b0 = 0xE3 \<and> b1 = 0x80 \<and> b2 = 0x80 then 3
                    else 0)))"

text \<open>The same for the rune at the end of \<open>s\<close>.\<close>

definition trailing_space_width :: "string \<Rightarrow> nat" where
  "trailing_space_width s =
     (let n = length s in
      if 1 \<le> n \<and> space_width (drop (n - 1) s) = 1 then 1
      else if 2 \<le> n \<and> space_width (drop (n - 2) s) = 2 then 2
      else if 3 \<le> n \<and> space_width (drop (n - 3) s) = 3 then 3
      else 0)"

fun trim_left :: "string \<Rightarrow> string" where
  "trim_left [] = []"
| "trim_left (c # cs) =
     (let w = space_width (c # cs) in
      if w = 0 then c # cs else trim_left (drop (w - 1) cs))"

function trim_right :: "string \<Rightarrow> string" where
  "trim_right s =
     (let w = trailing_space_width s in
      if w = 0 then s else trim_right (take (length s - w) s))"
  by pat_completeness auto
termination
proof (relation "measure length")
  show "wf (measure length)" by simp
next
  fix s :: string and w :: nat
  assume w: "w = trailing_space_width s" and nz: "w \<noteq> 0"
  from w nz have "s \<noteq> []"
    by (auto simp: trailing_space_width_def Let_def split: if_splits)
  with nz show "(take (length s - w) s, s) \<in> measure length"
    by simp
qed

text \<open>\<open>strings.TrimSpace\<close>: all leading and trailing white space removed.\<close>

definition TrimSpace :: "string \<Rightarrow> string" where
  "TrimSpace s = trim_right (trim_left s)"

text \<open>
  \<open>strings.Fields\<close>: the maximal runs of bytes that are not white space, in order.
  The first argument counts the bytes still to skip of a white-space rune of several
  bytes, the second is the field read so far.
\<close>

fun fields_scan :: "nat \<Rightarrow> string \<Rightarrow> string \<Rightarrow> string list" where
  "fields_scan k cur [] = (if cur = [] then [] else [cur])"
| "fields_scan (Suc k) cur (c # cs) = fields_scan k cur cs"
| "fields_scan 0 cur (c # cs) =
     (let w = space_width (c # cs) in
      if w = 0 then fields_scan 0 (cur @ [c]) cs
      else (if cur = [] then [] else [cur]) @ fields_scan (w - 1) [] cs)"

definition Fields :: "string \<Rightarrow> string list" where
  "Fields s = fields_scan 0 [] s"

text \<open>\<open>strings.HasPrefix\<close> and \<open>strings.Join\<close>.\<close>

definition HasPrefix :: "string \<Rightarrow> string \<Rightarrow> bool" where
  "HasPrefix s p = (take (length p) s = p)"

fun Join :: "string list \<Rightarrow> string \<Rightarrow> string" where
  "Join [] sep = []"
| "Join [x] sep = x"
| "Join (x # y # ys) sep = x @ sep @ Join (y # ys) sep"

text \<open>
  \<open>strings.ToUpper\<close> and \<open>strings.ToLower\<close> map every rune to its upper or lower case.
  On ASCII that is the map between \<open>a..z\<close> and \<open>A..Z\<close>. The only other runes whose
  image is an ASCII letter are U+0131 and U+017F (upper case \<open>I\<close> and \<open>S\<close>) and U+0130
  and U+212A (lower case \<open>i\<close> and \<open>k\<close>); they are mapped as Go maps them. Every other
  rune outside ASCII is left as it is here, where Go may replace it by another rune
  outside ASCII: the program only compares the results of \<open>ToUpper\<close> with ASCII
  literals, and the names that the DNS codec hands to \<open>ToLower\<close> are printable ASCII
  (it escapes every other byte as \<open>\DDD\<close>).
\<close>

fun ToUpper :: "string \<Rightarrow> string" where
  "ToUpper [] = []"
| "ToUpper (c # cs) =
     (if is_lower c then char_of (byte c - 32) # ToUpper cs
      else if map byte (c # take 1 cs) = [0xC4, 0xB1] then CHR ''I'' # ToUpper (drop 1 cs)
      else if map byte (c # take 1 cs) = [0xC5, 0xBF] then CHR ''S'' # ToUpper (drop 1 cs)
      else c # ToUpper cs)"

fun ToLower :: "string \<Rightarrow> string" where
  "ToLower [] = []"
| "ToLower (c # cs) =
     (if is_upper c then char_of (byte c + 32) # ToLower cs
      else if map byte (c # take 1 cs) = [0xC4, 0xB0] then CHR ''i'' # ToLower (drop 1 cs)
      else if map byte (c # take 2 cs) = [0xE2, 0x84, 0xAA] then CHR ''k'' # ToLower (drop 2 cs)
      else c # ToLower cs)"

subsection \<open>Package strconv\<close>

definition decimal :: "string \<Rightarrow> int" where
  "decimal s = foldl (\<lambda>n c. n * 10 + digit_val c) 0 s"

text \<open>
  \<open>strconv.ParseUint(s, 10, 32)\<close>: one or more decimal digits and no sign, the value at
  most \<open>2^32 - 1\<close>; anything else is an error (\<open>None\<close>).
\<close>

definition ParseUint32 :: "string \<Rightarrow> int option" where
  "ParseUint32 s =
     (if s = [] \<or> \<not> list_all is_digit s then None
      else if decimal s > 4294967295 then None
      else Some (decimal s))"

text \<open>
  \<open>strconv.Atoi\<close>: an optional sign, then one or more decimal digits; the value must fit
  Go's \<open>int\<close>, taken here as 64 bits wide (from \<open>-2^63\<close> to \<open>2^63 - 1\<close>).
\<close>

definition Atoi :: "string \<Rightarrow> int option" where
  "Atoi s =
     (let neg = (s \<noteq> [] \<and> hd s = CHR ''-'');
          ds = (if s \<noteq> [] \<and> (hd s = CHR ''-'' \<or> hd s = CHR ''+'') then tl s else s)
      in if ds = [] \<or> \<not> list_all is_digit ds then None
         else if neg then
           (if decimal ds > 9223372036854775808 then None else Some (- decimal ds))
         else
           (if decimal ds > 9223372036854775807 then None else Some (decimal ds)))"

subsection \<open>Package net\<close>

text \<open>
  An \<open>IP\<close> is a slice of bytes, \<open>nil\<close> being \<open>None\<close>. \<open>net.ParseIP\<close> returns the 16-byte
  form of an address written in dotted decimal or as an IPv6 literal (no zone), and
  \<open>nil\<close> for every other string.
\<close>

type_synonym IP = "8 word list"

text \<open>
  The dotted-decimal parser: the arguments are the value and the number of digits of
  the octet being read, the octets read, and whether the previous byte was a dot or the
  start of the string.
\<close>

fun parseIPv4Fields :: "int \<Rightarrow> nat \<Rightarrow> IP \<Rightarrow> bool \<Rightarrow> string \<Rightarrow> IP option" where
  "parseIPv4Fields val digLen fs pd [] =
     (if length fs < 3 then None else Some (fs @ [word_of_int val]))"
| "parseIPv4Fields val digLen fs pd (c # cs) =
     (if is_digit c then
        (if digLen = 1 \<and> val = 0 then None
         else if val * 10 + digit_val c > 255 then None
         else parseIPv4Fields (val * 10 + digit_val c) (digLen + 1) fs False cs)
      else if c = CHR ''.'' then
        (if pd \<or> cs = [] then None
         else if length fs = 3 then None
         else parseIPv4Fields 0 0 (fs @ [word_of_int val]) True cs)
      else None)"

definition parseIPv4 :: "string \<Rightarrow> IP option" where
  "parseIPv4 s =
     (case parseIPv4Fields 0 0 [] True s of
        None \<Rightarrow> None
      | Some fs \<Rightarrow> Some (replicate 10 0 @ [0xFF, 0xFF] @ fs))"

definition is_hex :: "char \<Rightarrow> bool" where
  "is_hex c = (is_digit c \<or> (97 \<le> byte c \<and> byte c \<le> 102) \<or> (65 \<le> byte c \<and> byte c \<le> 70))"

definition hex_val :: "char \<Rightarrow> int" where
  "hex_val c = (if is_digit c then byte c - 48
                else if 97 \<le> byte c then byte c - 97 + 10 else byte c - 65 + 10)"

definition hex_number :: "string \<Rightarrow> int" where
  "hex_number s = foldl (\<lambda>n c. n * 16 + hex_val c) 0 s"

text \<open>
  The end of \<open>parseIPv6\<close>: the whole string must have been read, and an ellipsis
  \<open>::\<close> at byte \<open>e\<close> stands for the zero bytes that are missing (at least two).
\<close>

definition v6_finish :: "string \<Rightarrow> IP \<Rightarrow> nat option \<Rightarrow> IP option" where
  "v6_finish s ip ellipsis =
     (if s \<noteq> [] then None
      else if length ip < 16 then
        (case ellipsis of
           None \<Rightarrow> None
         | Some e \<Rightarrow> Some (take e ip @ replicate (16 - length ip) 0 @ drop e ip))
      else (case ellipsis of None \<Rightarrow> Some ip | Some e \<Rightarrow> None))"

text \<open>
  The loop of \<open>parseIPv6\<close> over the groups of hexadecimal digits: \<open>ip\<close> holds the bytes
  written so far (the index \<open>i\<close> of the Go loop is its length).
\<close>

function v6_groups :: "string \<Rightarrow> IP \<Rightarrow> nat option \<Rightarrow> IP option" where
  "v6_groups s ip ellipsis =
     (if \<not> length ip < 16 then v6_finish s ip ellipsis
      else
        let ds = takeWhile is_hex s; rest = dropWhile is_hex s in
        if length ds > 4 \<or> ds = [] then None
        else if rest \<noteq> [] \<and> hd rest = CHR ''.'' then
          (if ellipsis = None \<and> length ip \<noteq> 12 then None
           else if length ip + 4 > 16 then None
           else (case parseIPv4Fields 0 0 [] True s of
                   None \<Rightarrow> None
                 | Some fs \<Rightarrow> v6_finish [] (ip @ fs) ellipsis))
        else
          let ip' = ip @ [word_of_int (hex_number ds div 256), word_of_int (hex_number ds)] in
          if rest = [] then v6_finish [] ip' ellipsis
          else if hd rest \<noteq> CHR '':'' then None
          else if length rest = 1 then None
          else if hd (tl rest) = CHR '':'' then
            (if ellipsis \<noteq> None then None
             else if tl (tl rest) = [] then v6_finish [] ip' (Some (length ip'))
             else v6_groups (tl (tl rest)) ip' (Some (length ip')))
          else v6_groups (tl rest) ip' ellipsis)"
  by pat_completeness auto
termination
  by (relation "measure (\<lambda>(s, ip, e). 16 - length ip)") auto

definition parseIPv6 :: "string \<Rightarrow> IP option" where
  "parseIPv6 s =
     (if CHR ''%'' \<in> set s then None
      else if length s \<ge> 2 \<and> take 2 s = ''::'' then
        (if drop 2 s = [] then Some (replicate 16 0)
         else v6_groups (drop 2 s) [] (Some 0))
      else v6_groups s [] None)"

text \<open>The first dot, colon or percent sign of the string decides how it is read.\<close>

definition ParseIP :: "string \<Rightarrow> IP option" where
  "ParseIP s =
     (case dropWhile (\<lambda>c. c \<noteq> CHR ''.'' \<and> c \<noteq> CHR '':'' \<and> c \<noteq> CHR ''%'') s of
        [] \<Rightarrow> None
      | c # _ \<Rightarrow>
          if c = CHR ''.'' then parseIPv4 s
          else if c = CHR '':'' then parseIPv6 s
          else None)"

text \<open>
  \<open>IP.To4\<close>: the four bytes of an IPv4 address, from its 4-byte form or its 16-byte
  form \<open>::ffff:a.b.c.d\<close>; \<open>nil\<close> for every other slice. Go's \<open>net.ParseIP(s).To4()\<close>
  on a \<open>nil\<close> result of \<open>ParseIP\<close> is \<open>nil\<close>.
\<close>

definition To4 :: "IP option \<Rightarrow> IP option" where
  "To4 ipo =
     (case ipo of
        None \<Rightarrow> None
      | Some ip \<Rightarrow>
          if length ip = 4 then Some ip
          else if length ip = 16 \<and> take 10 ip = replicate 10 0 \<and> ip ! 10 = 0xFF \<and> ip ! 11 = 0xFF
            then Some (drop 12 ip)
          else None)"

subsection \<open>Package dns (github.com/miekg/dns)\<close>

text \<open>
  \<open>strings.LastIndexFunc(s, func(r rune) bool { return r != '\\' })\<close>, as \<open>dns.IsFqdn\<close>
  calls it: the index of the first byte of the last rune of \<open>s\<close> that is not a
  backslash, or \<open>-1\<close>. The string is read from its end, rune by rune, as
  \<open>utf8.DecodeLastRuneInString\<close> does: the last rune is the last byte alone, unless
  that byte is outside ASCII and, with the bytes from the nearest byte before it that is
  not a continuation byte (at most three bytes back), is the UTF-8 encoding of one rune.
\<close>

definition is_cont :: "int \<Rightarrow> bool" where
  "is_cont b = (0x80 \<le> b \<and> b \<le> 0xBF)"

definition encodes_rune :: "int list \<Rightarrow> bool" where
  "encodes_rune bs =
     (case bs of
        [b0, b1] \<Rightarrow> 0xC2 \<le> b0 \<and> b0 \<le> 0xDF \<and> is_cont b1
      | [b0, b1, b2] \<Rightarrow>
          (b0 = 0xE0 \<and> 0xA0 \<le> b1 \<and> b1 \<le> 0xBF \<or>
           0xE1 \<le> b0 \<and> b0 \<le> 0xEC \<and> is_cont b1 \<or>
           b0 = 0xED \<and> 0x80 \<le> b1 \<and> b1 \<le> 0x9F \<or>
           0xEE \<le> b0 \<and> b0 \<le> 0xEF \<and> is_cont b1) \<and> is_cont b2
      | [b0, b1, b2, b3] \<Rightarrow>
          (b0 = 0xF0 \<and> 0x90 \<le> b1 \<and> b1 \<le> 0xBF \<or>
           0xF1 \<le> b0 \<and> b0 \<le> 0xF3 \<and> is_cont b1 \<or>
           b0 = 0xF4 \<and> 0x80 \<le> b1 \<and> b1 \<le> 0x8F) \<and> is_cont b2 \<and> is_cont b3
      | _ \<Rightarrow> False)"

definition last_rune_width :: "string \<Rightarrow> nat" where
  "last_rune_width s =
     (let bs = map byte s; n = length bs in
      if n = 0 then 0
      else if last bs < 0x80 then 1
      else (case find (\<lambda>d. \<not> is_cont (bs ! (n - d))) (filter (\<lambda>d. d \<le> n) [2, 3, 4]) of
              None \<Rightarrow> 1
            | Some d \<Rightarrow> if encodes_rune (drop (n - d) bs) then d else 1))"

definition last_index_not_backslash :: "string \<Rightarrow> int" where
  "last_index_not_backslash s =
     (let k = length (takeWhile (\<lambda>c. c = CHR 0x5C) (rev s));
          front = take (length s - k) s
      in if front = [] then - 1 else int (length front) - int (last_rune_width front))"

text \<open>
  \<open>dns.IsFqdn\<close>: the name ends with a dot, and when backslashes come before that dot,
  the distance from the last rune that is not a backslash to the dot is odd (the dot is
  not escaped). \<open>dns.Fqdn\<close> appends a dot to every name that is not fully qualified.
\<close>

definition IsFqdn :: "string \<Rightarrow> bool" where
  "IsFqdn s =
     (if s = [] \<or> last s \<noteq> CHR ''.'' then False
      else if butlast s = [] \<or> last (butlast s) \<noteq> CHR 0x5C then True
      else (int (length (butlast s)) - last_index_not_backslash (butlast s)) mod 2 \<noteq> 0)"

definition Fqdn :: "string \<Rightarrow> string" where
  "Fqdn s = (if IsFqdn s then s else s @ ''.'')"

text \<open>
  \<open>dns.IsDomainName\<close> is the library's test that a string is a domain name. The
  program uses only its verdict, on the targets of \<open>CNAME\<close> and \<open>MX\<close> lines, so the
  functions below take the test as their first argument.
\<close>

type_synonym domain_test = "string \<Rightarrow> bool"

text \<open>Query types and reply codes, with the library's numbers.\<close>

definition TypeA :: "16 word" where "TypeA = 1"
definition TypeCNAME :: "16 word" where "TypeCNAME = 5"
definition TypeMX :: "16 word" where "TypeMX = 15"
definition TypeTXT :: "16 word" where "TypeTXT = 16"
definition ClassINET :: "16 word" where "ClassINET = 1"

definition RcodeSuccess :: int where "RcodeSuccess = 0"
definition RcodeServerFailure :: int where "RcodeServerFailure = 2"
definition RcodeNotImplemented :: int where "RcodeNotImplemented = 4"

record Question =
  Name :: string
  Qtype :: "16 word"
  Qclass :: "16 word"

record RR_Header =
  Hdr_Name :: string
  Rrtype :: "16 word"
  Class :: "16 word"
  Ttl :: "32 word"

text \<open>
  The four kinds of resource record that the program builds: \<open>dns.A\<close> (header and
  address), \<open>dns.CNAME\<close> (header and target), \<open>dns.TXT\<close> (header and strings) and
  \<open>dns.MX\<close> (header, preference and host).
\<close>

datatype RR =
    RR_A RR_Header "IP option"
  | RR_CNAME RR_Header string
  | RR_TXT RR_Header "string list"
  | RR_MX RR_Header "16 word" string

text \<open>A \<open>dns.Msg\<close>, with the parts of the header and the sections that the program touches.\<close>

record Msg =
  Id :: "16 word"
  Response :: bool
  Opcode :: int
  Authoritative :: bool
  Rcode :: int
  Questions :: "Question list"
  Answer :: "RR list"

text \<open>
  \<open>new(dns.Msg)\<close> followed by \<open>SetReply(r)\<close>: a response with the identifier and opcode
  of the request, the success code, the first question of the request and no answer.
\<close>

definition SetReply :: "Msg \<Rightarrow> Msg" where
  "SetReply r =
     \<lparr>Id = Id r, Response = True, Opcode = Opcode r, Authoritative = False,
      Rcode = RcodeSuccess, Questions = take 1 (Questions r), Answer = []\<rparr>"

section \<open>The program\<close>

subsection \<open>Types and global state\<close>

record Config =
  ListenPort :: string
  HostsFile :: string
  LogLevel :: string
  PollFreq :: int
  FallbackDNS :: string

record Record =
  Type :: string
  TTL :: "32 word"
  Data :: string
  Pref :: "16 word"

text \<open>
  The global \<open>records\<close> is a Go map from names to records; a \<open>nil\<close> map reads as the
  empty map. A \<open>time.Time\<close> is an instant on the integer line, the zero \<open>Time\<close> being 0.
\<close>

type_synonym zone = "string \<rightharpoonup> Record"

type_synonym Time = int

record State =
  records :: zone
  hostsFileModTime :: Time

subsection \<open>The file system and the network, as the program sees them\<close>

text \<open>
  Opening a file fails, or gives a \<open>bufio.Scanner\<close>: the lines that its \<open>Scan\<close> returns
  (without their line ends), then whether \<open>scanner.Err()\<close> reports an error (a read
  error, or a line too long for the scanner's buffer). \<open>os.Stat\<close> gives the
  modification time of a file, or an error (\<open>None\<close>). \<open>Listen\<close> tells whether the
  UDP listener can be started on a port. \<open>Exchange\<close> is \<open>dns.Client.Exchange\<close>: the
  reply of the server at an address to a message, or an error (\<open>None\<close>).
\<close>

datatype opened = OpenFails | Scanner "string list" bool

record Env =
  Open :: "string \<Rightarrow> opened"
  Stat :: "string \<Rightarrow> Time option"
  Listen :: "string \<Rightarrow> bool"
  Exchange :: "Msg \<Rightarrow> string \<Rightarrow> Msg option"

subsection \<open>loadZoneFile\<close>

text \<open>
  The body of the loop of \<open>loadZoneFile\<close> on one line of text: the line is skipped
  without a word (blank or comment), or skipped with a diagnostic in the log, or it
  assigns a record to a name in \<open>recs\<close>.
\<close>

datatype diagnostic =
    TooFewFields | InvalidTTL | UnsupportedClass | InvalidIP | InvalidCNAMETarget
  | InvalidMX | InvalidMXPreference | InvalidMXHost | UnsupportedRecordType

datatype line_effect = Skip | Log diagnostic | Assign string Record

definition zone_line :: "domain_test \<Rightarrow> string \<Rightarrow> line_effect" where
  "zone_line IsDomainName text =
     (let line = TrimSpace text in
      if line = [] \<or> HasPrefix line '';'' \<or> HasPrefix line ''#'' then Skip
      else
        let fields = Fields line in
        if length fields < 5 then Log TooFewFields
        else
          let name = Fqdn (fields ! 0) in
          case ParseUint32 (fields ! 1) of
            None \<Rightarrow> Log InvalidTTL
          | Some ttl \<Rightarrow>
              let class = ToUpper (fields ! 2); rtype = ToUpper (fields ! 3) in
              if class \<noteq> ''IN'' then Log UnsupportedClass
              else if rtype = ''A'' then
                (if ParseIP (fields ! 4) = None then Log InvalidIP
                 else Assign name
                   \<lparr>Type = ''A'', TTL = word_of_int ttl, Data = fields ! 4, Pref = 0\<rparr>)
              else if rtype = ''CNAME'' then
                (let target = Fqdn (fields ! 4) in
                 if \<not> IsDomainName target then Log InvalidCNAMETarget
                 else Assign name
                   \<lparr>Type = ''CNAME'', TTL = word_of_int ttl, Data = target, Pref = 0\<rparr>)
              else if rtype = ''TXT'' then
                Assign name
                  \<lparr>Type = ''TXT'', TTL = word_of_int ttl,
                   Data = Join (drop 4 fields) '' '', Pref = 0\<rparr>
              else if rtype = ''MX'' then
                (if length fields < 6 then Log InvalidMX
                 else case Atoi (fields ! 4) of
                   None \<Rightarrow> Log InvalidMXPreference
                 | Some pref \<Rightarrow>
                     let host = Fqdn (fields ! 5) in
                     if \<not> IsDomainName host then Log InvalidMXHost
                     else Assign name
                       \<lparr>Type = ''MX'', TTL = word_of_int ttl, Data = host,
                        Pref = word_of_int pref\<rparr>)
              else Log UnsupportedRecordType)"

text \<open>
  A line defines a name when the loop assigns a record to that name on it.
\<close>

definition line_defines :: "domain_test \<Rightarrow> string \<Rightarrow> string \<Rightarrow> bool" where
  "line_defines IsDomainName text name =
     (case zone_line IsDomainName text of Assign k rec \<Rightarrow> k = name | _ \<Rightarrow> False)"

text \<open>
  The loop over the scanned lines: \<open>lineNum\<close> counts every line, \<open>recs\<close> is the map
  being built, \<open>out\<close> the diagnostics printed so far, each with its line number.
\<close>

fun zone_lines ::
  "domain_test \<Rightarrow> nat \<Rightarrow> string list \<Rightarrow> zone \<Rightarrow> (nat \<times> diagnostic) list
     \<Rightarrow> zone \<times> (nat \<times> diagnostic) list" where
  "zone_lines IsDomainName lineNum [] recs out = (recs, out)"
| "zone_lines IsDomainName lineNum (text # rest) recs out =
     (case zone_line IsDomainName text of
        Skip \<Rightarrow> zone_lines IsDomainName (lineNum + 1) rest recs out
      | Log d \<Rightarrow> zone_lines IsDomainName (lineNum + 1) rest recs (out @ [(lineNum + 1, d)])
      | Assign name rec \<Rightarrow>
          zone_lines IsDomainName (lineNum + 1) rest (recs(name \<mapsto> rec)) out)"

text \<open>
  \<open>loadZoneFile\<close> returns a map and an error: \<open>(nil, err)\<close> when the file cannot be
  opened, otherwise the map built from the lines scanned, with \<open>scanner.Err()\<close>. The
  third component is what it printed.
\<close>

datatype load_error = OpenError | ScanError

definition loadZoneFile ::
  "domain_test \<Rightarrow> Env \<Rightarrow> string \<Rightarrow> zone \<times> load_error option \<times> (nat \<times> diagnostic) list" where
  "loadZoneFile IsDomainName env path =
     (case Open env path of
        OpenFails \<Rightarrow> (Map.empty, Some OpenError, [])
      | Scanner lines failed \<Rightarrow>
          (let (recs, out) = zone_lines IsDomainName 0 lines Map.empty []
           in (recs, if failed then Some ScanError else None, out)))"

subsection \<open>reloadZoneIfChanged\<close>

text \<open>
  One turn of the loop, after the sleep: the file is loaded again when \<open>os.Stat\<close>
  succeeds with a modification time after the recorded one, and the new map and time
  are stored only when the load has no error.
\<close>

definition reload_turn :: "domain_test \<Rightarrow> Config \<Rightarrow> Env \<Rightarrow> State \<Rightarrow> State" where
  "reload_turn IsDomainName config env st =
     (case Stat env (HostsFile config) of
        None \<Rightarrow> st
      | Some modTime \<Rightarrow>
          if modTime > hostsFileModTime st then
            (case loadZoneFile IsDomainName env (HostsFile config) of
               (newRecords, None, out) \<Rightarrow>
                 st\<lparr>records := newRecords, hostsFileModTime := modTime\<rparr>
             | (newRecords, Some err, out) \<Rightarrow> st)
          else st)"

text \<open>
  The loop has no exit. Its runs are given by the state after any number of turns,
  each turn seeing the file system as it is at that moment.
\<close>

fun reloadZoneIfChanged :: "domain_test \<Rightarrow> Config \<Rightarrow> Env list \<Rightarrow> State \<Rightarrow> State" where
  "reloadZoneIfChanged IsDomainName config [] st = st"
| "reloadZoneIfChanged IsDomainName config (env # envs) st =
     reloadZoneIfChanged IsDomainName config envs (reload_turn IsDomainName config env st)"

subsection \<open>handleDNSRequest\<close>

text \<open>
  The body of the loop over the questions of a request: \<open>m\<close> is the reply being
  built and \<open>answered\<close> the flag of the handler.
\<close>

definition answer_question :: "zone \<Rightarrow> Question \<Rightarrow> Msg \<times> bool \<Rightarrow> Msg \<times> bool" where
  "answer_question recs q ma =
     (let m = fst ma; answered = snd ma;
          name = Fqdn (ToLower (Name q))
      in case recs name of
           None \<Rightarrow> (m, answered)
         | Some rec \<Rightarrow>
             if Qtype q = TypeA then
               (if Type rec = ''A'' then
                  (m\<lparr>Answer := Answer m @
                      [RR_A \<lparr>Hdr_Name = Name q, Rrtype = TypeA, Class = ClassINET, Ttl = TTL rec\<rparr>
                         (To4 (ParseIP (Data rec)))]\<rparr>, True)
                else if Type rec = ''CNAME'' then
                  (m\<lparr>Answer := Answer m @
                      [RR_CNAME \<lparr>Hdr_Name = Name q, Rrtype = TypeCNAME, Class = ClassINET, Ttl = TTL rec\<rparr>
                         (Data rec)]\<rparr>, True)
                else (m, answered))
             else if Qtype q = TypeCNAME then
               (if Type rec = ''CNAME'' then
                  (m\<lparr>Answer := Answer m @
                      [RR_CNAME \<lparr>Hdr_Name = Name q, Rrtype = TypeCNAME, Class = ClassINET, Ttl = TTL rec\<rparr>
                         (Data rec)]\<rparr>, True)
                else (m, answered))
             else if Qtype q = TypeTXT then
               (if Type rec = ''TXT'' then
                  (m\<lparr>Answer := Answer m @
                      [RR_TXT \<lparr>Hdr_Name = Name q, Rrtype = TypeTXT, Class = ClassINET, Ttl = TTL rec\<rparr>
                         [Data rec]]\<rparr>, True)
                else (m, answered))
             else if Qtype q = TypeMX then
               (if Type rec = ''MX'' then
                  (m\<lparr>Answer := Answer m @
                      [RR_MX \<lparr>Hdr_Name = Name q, Rrtype = TypeMX, Class = ClassINET, Ttl = TTL rec\<rparr>
                         (Pref rec) (Data rec)]\<rparr>, True)
                else (m, answered))
             else (m\<lparr>Rcode := RcodeNotImplemented\<rparr>, answered))"

fun answer_questions :: "zone \<Rightarrow> Question list \<Rightarrow> Msg \<times> bool \<Rightarrow> Msg \<times> bool" where
  "answer_questions recs [] ma = ma"
| "answer_questions recs (q # qs) ma = answer_questions recs qs (answer_question recs q ma)"

text \<open>
  What a call of the handler does to the outside: the message it writes to the
  client, and the calls of \<open>forwardToFallback\<close> it made (the message passed and the
  address of the upstream server).
\<close>

record Handled =
  WriteMsg :: Msg
  forwards :: "(Msg \<times> string) list"

definition handleDNSRequest :: "Config \<Rightarrow> Env \<Rightarrow> State \<Rightarrow> Msg \<Rightarrow> Handled" where
  "handleDNSRequest config env st r =
     (let m0 = (SetReply r)\<lparr>Authoritative := True\<rparr>;
          (m, answered) = answer_questions (records st) (Questions r) (m0, False)
      in if \<not> answered \<and> FallbackDNS config \<noteq> [] then
           (case Exchange env r (FallbackDNS config) of
              Some resp \<Rightarrow> \<lparr>WriteMsg = resp, forwards = [(r, FallbackDNS config)]\<rparr>
            | None \<Rightarrow>
                \<lparr>WriteMsg = m\<lparr>Rcode := RcodeServerFailure\<rparr>,
                 forwards = [(r, FallbackDNS config)]\<rparr>)
         else \<lparr>WriteMsg = m, forwards = []\<rparr>)"

subsection \<open>main\<close>

text \<open>
  The start of the process, after the flags and the configuration are read: a fatal
  exit when \<open>loadZoneFile\<close> returns an error, otherwise the global state is set (the
  modification time only when \<open>os.Stat\<close> succeeds) and the server is started, which
  is fatal too when it fails.
\<close>

datatype startup = FatalLoad load_error | FatalListen | Serving State

definition main :: "domain_test \<Rightarrow> Config \<Rightarrow> Env \<Rightarrow> startup" where
  "main IsDomainName config env =
     (case loadZoneFile IsDomainName env (HostsFile config) of
        (recs, Some err, out) \<Rightarrow> FatalLoad err
      | (recs, None, out) \<Rightarrow>
          let st = \<lparr>records = recs,
                    hostsFileModTime =
                      (case Stat env (HostsFile config) of None \<Rightarrow> 0 | Some t \<Rightarrow> t)\<rparr>
          in if Listen env (ListenPort config) then Serving st else FatalListen)"

subsection \<open>The installation of the README\<close>

text \<open>
  The zone file and the configuration that the README gives, a domain test that takes
  every name but the empty one, a host on which \<open>zones.txt\<close> is the only file, and the
  request that \<open>dig\<close> sends for a name and a type. They are the concrete inputs on
  which the properties below are run.
\<close>

definition zones_txt :: "string list" where
  \<open>zones_txt =
     [''example.local.    300 IN A     127.0.0.1'',
      ''router.home.      300 IN A     192.168.1.1'',
      ''alias.local.      300 IN CNAME example.local.'',
      ''text.example.     300 IN TXT   "This is a test TXT record"'',
      ''mail.example.     300 IN MX    10 mailserver.local.'']\<close>

definition config_yaml :: Config where
  "config_yaml =
     \<lparr>ListenPort = ''1053'', HostsFile = ''zones.txt'', LogLevel = ''info'', PollFreq = 5,
      FallbackDNS = ''8.8.8.8:53''\<rparr>"

definition nonempty_name :: domain_test where
  "nonempty_name s = (s \<noteq> [])"

definition host :: "opened \<Rightarrow> Time option \<Rightarrow> Msg option \<Rightarrow> Env" where
  "host zones mtime upstream =
     \<lparr>Open = (\<lambda>path. if path = ''zones.txt'' then zones else OpenFails),
      Stat = (\<lambda>path. if path = ''zones.txt'' then mtime else None),
      Listen = (\<lambda>port. True),
      Exchange = (\<lambda>m address. upstream)\<rparr>"

definition query :: "string \<Rightarrow> 16 word \<Rightarrow> Msg" where
  "query name qtype =
     \<lparr>Id = 1, Response = False, Opcode = 0, Authoritative = False, Rcode = RcodeSuccess,
      Questions = [\<lparr>Name = name, Qtype = qtype, Qclass = ClassINET\<rparr>], Answer = []\<rparr>"

definition readme_zone :: zone where
  "readme_zone = fst (zone_lines nonempty_name 0 zones_txt Map.empty [])"

section \<open>Properties\<close>

subsection \<open>Names: case and the trailing dot\<close>

lemma byte_char_of: "0 \<le> n \<Longrightarrow> n < 256 \<Longrightarrow> byte (char_of n) = n"
  by (simp add: byte_def)

lemma upper_to_lower: "is_upper d \<Longrightarrow> \<not> is_upper (char_of (byte d + 32))"
proof -
  assume "is_upper d"
  then have b: "65 \<le> byte d" "byte d \<le> 90" by (simp_all add: is_upper_def)
  then have "byte (char_of (byte d + 32)) = byte d + 32"
    by (intro byte_char_of) simp_all
  with b show ?thesis by (simp add: is_upper_def)
qed

lemma not_upper_ik: "\<not> is_upper CHR ''i''" "\<not> is_upper CHR ''k''" "\<not> is_upper CHR ''.''"
  by (simp_all add: is_upper_def byte_def)

lemma ToLower_not_upper: "list_all (\<lambda>c. \<not> is_upper c) (ToLower s)"
proof (induction s rule: ToLower.induct)
  case 1
  show ?case by simp
next
  case (2 d ds)
  consider (up) "is_upper d"
    | (i) "\<not> is_upper d" "map byte (d # take 1 ds) = [0xC4, 0xB0]"
    | (k) "\<not> is_upper d" "map byte (d # take 1 ds) \<noteq> [0xC4, 0xB0]"
          "map byte (d # take 2 ds) = [0xE2, 0x84, 0xAA]"
    | (same) "\<not> is_upper d" "map byte (d # take 1 ds) \<noteq> [0xC4, 0xB0]"
          "map byte (d # take 2 ds) \<noteq> [0xE2, 0x84, 0xAA]"
    by blast
  then show ?case
  proof cases
    case up
    with 2(1) show ?thesis by (simp add: upper_to_lower)
  next
    case i
    with 2(2) show ?thesis by (simp add: not_upper_ik)
  next
    case k
    with 2(3) show ?thesis by (simp add: not_upper_ik)
  next
    case same
    with 2(4) show ?thesis by auto
  qed
qed

lemma Fqdn_cases: "Fqdn s = s \<or> Fqdn s = s @ ''.''"
  by (simp add: Fqdn_def)

lemma Fqdn_ToLower_not_upper: "\<not> list_ex is_upper (Fqdn (ToLower s))"
proof -
  have "list_all (\<lambda>c. \<not> is_upper c) (Fqdn (ToLower s))"
    using Fqdn_cases [of "ToLower s"] ToLower_not_upper [of s]
    by (auto simp: not_upper_ik)
  then show ?thesis by (simp add: list_all_iff list_ex_iff)
qed

lemma Fqdn_keeps_upper: "list_ex is_upper s \<Longrightarrow> list_ex is_upper (Fqdn s)"
  using Fqdn_cases [of s] by auto

lemma zone_line_Assign_name:
  "zone_line IsDomainName text = Assign name rec \<Longrightarrow> name = Fqdn (Fields (TrimSpace text) ! 0)"
  unfolding zone_line_def Let_def
  by (simp split: if_splits option.splits)

lemma answer_question_cong:
  "recs' (Fqdn (ToLower (Name q))) = recs (Fqdn (ToLower (Name q))) \<Longrightarrow>
   answer_question recs' q ma = answer_question recs q ma"
  by (simp add: answer_question_def)

lemma answer_questions_cong:
  "(\<And>q. q \<in> set qs \<Longrightarrow> recs' (Fqdn (ToLower (Name q))) = recs (Fqdn (ToLower (Name q)))) \<Longrightarrow>
   answer_questions recs' qs ma = answer_questions recs qs ma"
proof (induction qs arbitrary: ma)
  case Nil
  then show ?case by simp
next
  case (Cons q qs)
  then show ?case by (simp add: answer_question_cong [of recs' q recs])
qed

subsection \<open>Zone names with upper-case letters\<close>

text \<open>
  Claim C1. A line that the parser accepts is stored under the name
  \<open>Fqdn (fields[0])\<close>, its case untouched, while the handler looks names up under
  \<open>Fqdn (ToLower (q.Name))\<close>. So when the name field of an accepted line has an
  upper-case letter, no question name is ever normalized to the name of that line, and
  the entry under that name is out of the reach of every request: the handler does
  the same on every request, whether the map has an entry under that name or not.
\<close>

theorem uppercase_zone_name_unreachable:
  assumes accepted: "zone_line IsDomainName text = Assign name rec"
      and upper: "list_ex is_upper (Fields (TrimSpace text) ! 0)"
  shows "Fqdn (ToLower qname) \<noteq> name \<and>
         handleDNSRequest config env st r =
           handleDNSRequest config env (st\<lparr>records := (records st)(name := None)\<rparr>) r"
proof -
  have name: "name = Fqdn (Fields (TrimSpace text) ! 0)"
    using accepted by (rule zone_line_Assign_name)
  with upper have up: "list_ex is_upper name"
    by (simp add: Fqdn_keeps_upper)
  have ne: "Fqdn (ToLower s) \<noteq> name" for s
    using up Fqdn_ToLower_not_upper [of s] by auto
  have "answer_questions ((records st)(name := None)) qs ma = answer_questions (records st) qs ma"
    for qs ma
    by (rule answer_questions_cong) (simp add: ne)
  then have "handleDNSRequest config env (st\<lparr>records := (records st)(name := None)\<rparr>) r =
             handleDNSRequest config env st r"
    by (simp add: handleDNSRequest_def)
  with ne show ?thesis by simp
qed

theorem uppercase_zone_name_unreachable_witness:
  "zone_line nonempty_name ''Mixed.Case. 300 IN A 10.0.0.1'' =
     Assign ''Mixed.Case.'' \<lparr>Type = ''A'', TTL = 300, Data = ''10.0.0.1'', Pref = 0\<rparr> \<and>
   list_ex is_upper (Fields (TrimSpace ''Mixed.Case. 300 IN A 10.0.0.1'') ! 0) \<and>
   Fqdn (ToLower ''Mixed.Case'') \<noteq> ''Mixed.Case.''"
proof -
  have a: "zone_line nonempty_name ''Mixed.Case. 300 IN A 10.0.0.1'' =
     Assign ''Mixed.Case.'' \<lparr>Type = ''A'', TTL = 300, Data = ''10.0.0.1'', Pref = 0\<rparr>"
    by code_simp
  have u: "list_ex is_upper (Fields (TrimSpace ''Mixed.Case. 300 IN A 10.0.0.1'') ! 0)"
    by code_simp
  from uppercase_zone_name_unreachable [OF a u, of "''Mixed.Case''"] a u show ?thesis
    by simp
qed

subsection \<open>The loop over the questions\<close>

lemma answered_independent:
  "snd (answer_question recs q (m, answered)) =
     (answered \<or> snd (answer_question recs q (m', False)))"
  by (simp add: answer_question_def Let_def split: option.splits)

lemma answered_questions:
  "snd (answer_questions recs qs (m, answered)) =
     (answered \<or> list_ex (\<lambda>q. snd (answer_question recs q (m', False))) qs)"
proof (induction qs arbitrary: m answered)
  case Nil
  show ?case by simp
next
  case (Cons q qs)
  obtain m1 a1 where step: "answer_question recs q (m, answered) = (m1, a1)"
    by (cases "answer_question recs q (m, answered)")
  have "a1 = (answered \<or> snd (answer_question recs q (m', False)))"
    using answered_independent [of recs q m answered m'] step by simp
  with Cons [of m1 a1] step show ?case by auto
qed

lemma answered_or_same_Answer:
  "snd (answer_question recs q (m, answered)) \<or>
   Answer (fst (answer_question recs q (m, answered))) = Answer m"
  by (simp add: answer_question_def Let_def split: option.split)

lemma unanswered_question_keeps_Answer:
  "\<not> snd (answer_question recs q (m, answered)) \<Longrightarrow>
   Answer (fst (answer_question recs q (m, answered))) = Answer m"
  using answered_or_same_Answer [of recs q m answered] by blast

lemma unanswered_keeps_Answer:
  "\<not> snd (answer_questions recs qs (m, answered)) \<Longrightarrow>
   Answer (fst (answer_questions recs qs (m, answered))) = Answer m"
proof (induction qs arbitrary: m answered)
  case Nil
  show ?case by simp
next
  case (Cons q qs)
  obtain m1 a1 where step: "answer_question recs q (m, answered) = (m1, a1)"
    by (cases "answer_question recs q (m, answered)")
  from Cons.prems step have later: "\<not> snd (answer_questions recs qs (m1, a1))"
    by simp
  have "\<not> a1"
  proof
    assume a1
    then have "snd (answer_questions recs qs (m1, a1))"
      by (simp add: answered_questions [of recs qs m1 True m1])
    with later show False by simp
  qed
  with step have "Answer m1 = Answer m"
    using unanswered_question_keeps_Answer [of recs q m answered] by simp
  with Cons.IH [OF later] step show ?case by simp
qed

lemma Rcode_answer_question:
  "Rcode (fst (answer_question recs q (m, answered))) =
     (if Qtype q \<notin> {TypeA, TypeCNAME, TypeTXT, TypeMX} \<and> recs (Fqdn (ToLower (Name q))) \<noteq> None
      then RcodeNotImplemented else Rcode m)"
  by (simp add: answer_question_def split: option.split)

lemma Rcode_answer_questions:
  "Rcode (fst (answer_questions recs qs (m, answered))) =
     (if list_ex (\<lambda>q. Qtype q \<notin> {TypeA, TypeCNAME, TypeTXT, TypeMX} \<and>
                       recs (Fqdn (ToLower (Name q))) \<noteq> None) qs
      then RcodeNotImplemented else Rcode m)"
proof (induction qs arbitrary: m answered)
  case Nil
  show ?case by simp
next
  case (Cons q qs)
  obtain m1 a1 where step: "answer_question recs q (m, answered) = (m1, a1)"
    by (cases "answer_question recs q (m, answered)")
  have "Rcode m1 =
     (if Qtype q \<notin> {TypeA, TypeCNAME, TypeTXT, TypeMX} \<and> recs (Fqdn (ToLower (Name q))) \<noteq> None
      then RcodeNotImplemented else Rcode m)"
    using Rcode_answer_question [of recs q m answered] step by simp
  with Cons [of m1 a1] step show ?case by auto
qed

lemma local_reply:
  "forwards (handleDNSRequest config env st r) = [] \<Longrightarrow>
   WriteMsg (handleDNSRequest config env st r) =
     fst (answer_questions (records st) (Questions r) ((SetReply r)\<lparr>Authoritative := True\<rparr>, False))"
  by (auto simp: handleDNSRequest_def Let_def case_prod_beta split: option.splits if_splits)

subsection \<open>A question of type A on a CNAME record\<close>

text \<open>
  Claim C3. When the question has type \<open>A\<close> and the map has a \<open>CNAME\<close> record under the
  normalized name, the question adds one record to the answer, the \<open>CNAME\<close> record with
  the stored target and TTL, and sets the flag. The step is a function of that one
  record: the map is not read at the target name, and no \<open>A\<close> record is added. A
  request made of that one question is answered by exactly that record, without
  forwarding.
\<close>

theorem cname_answers_A_question:
  assumes "Qtype q = TypeA"
      and "recs (Fqdn (ToLower (Name q))) = Some rec"
      and "Type rec = ''CNAME''"
  shows "answer_question recs q (m, answered) =
           (m\<lparr>Answer := Answer m @
               [RR_CNAME \<lparr>Hdr_Name = Name q, Rrtype = TypeCNAME, Class = ClassINET, Ttl = TTL rec\<rparr>
                  (Data rec)]\<rparr>, True) \<and>
         (records st = recs \<and> Questions r = [q] \<longrightarrow>
            handleDNSRequest config env st r =
              \<lparr>WriteMsg = (SetReply r)
                 \<lparr>Authoritative := True,
                  Answer := [RR_CNAME \<lparr>Hdr_Name = Name q, Rrtype = TypeCNAME, Class = ClassINET,
                                        Ttl = TTL rec\<rparr> (Data rec)]\<rparr>,
               forwards = []\<rparr>)"
proof -
  have step: "answer_question recs q (m, answered) =
           (m\<lparr>Answer := Answer m @
               [RR_CNAME \<lparr>Hdr_Name = Name q, Rrtype = TypeCNAME, Class = ClassINET, Ttl = TTL rec\<rparr>
                  (Data rec)]\<rparr>, True)" for m answered
    using assms by (simp add: answer_question_def)
  then show ?thesis
    by (simp add: handleDNSRequest_def SetReply_def)
qed

theorem cname_answers_A_question_witness:
  "answer_question readme_zone \<lparr>Name = ''Alias.Local'', Qtype = TypeA, Qclass = ClassINET\<rparr>
     (SetReply (query ''Alias.Local'' TypeA), False) =
   ((SetReply (query ''Alias.Local'' TypeA))
      \<lparr>Answer := [RR_CNAME \<lparr>Hdr_Name = ''Alias.Local'', Rrtype = TypeCNAME, Class = ClassINET, Ttl = 300\<rparr>
                    ''example.local.'']\<rparr>, True)"
proof -
  let ?q = "\<lparr>Name = ''Alias.Local'', Qtype = TypeA, Qclass = ClassINET\<rparr>"
  let ?rec = "\<lparr>Type = ''CNAME'', TTL = 300, Data = ''example.local.'', Pref = 0\<rparr>"
  let ?m = "SetReply (query ''Alias.Local'' TypeA)"
  have t: "Qtype ?q = TypeA" by simp
  have l: "readme_zone (Fqdn (ToLower (Name ?q))) = Some ?rec" by code_simp
  have c: "Type ?rec = ''CNAME''" by simp
  from t l c
    cname_answers_A_question [where q = ?q and recs = readme_zone and rec = ?rec
      and m = ?m and answered = False]
  have "answer_question readme_zone ?q (?m, False) =
          (?m\<lparr>Answer := Answer ?m @
              [RR_CNAME \<lparr>Hdr_Name = Name ?q, Rrtype = TypeCNAME, Class = ClassINET, Ttl = TTL ?rec\<rparr>
                 (Data ?rec)]\<rparr>, True)"
    by blast
  then show ?thesis
    by (simp add: SetReply_def)
qed

subsection \<open>The fallback\<close>

text \<open>
  Claim C5. When no question of the request produces an answer, an upstream address is
  configured and the exchange with the upstream server fails, the reply written to the
  client has the code SERVFAIL and an empty answer section.
\<close>

theorem servfail_when_forwarding_fails:
  assumes none: "\<not> list_ex (\<lambda>q. snd (answer_question (records st) q (SetReply r, False))) (Questions r)"
      and upstream: "FallbackDNS config \<noteq> []"
      and fails: "Exchange env r (FallbackDNS config) = None"
  shows "Rcode (WriteMsg (handleDNSRequest config env st r)) = RcodeServerFailure \<and>
         Answer (WriteMsg (handleDNSRequest config env st r)) = []"
proof -
  let ?m0 = "(SetReply r)\<lparr>Authoritative := True\<rparr>"
  obtain m answered where loop: "answer_questions (records st) (Questions r) (?m0, False) = (m, answered)"
    by (cases "answer_questions (records st) (Questions r) (?m0, False)")
  have "answered = list_ex (\<lambda>q. snd (answer_question (records st) q (SetReply r, False))) (Questions r)"
    using answered_questions [of "records st" "Questions r" ?m0 False "SetReply r"] loop by simp
  with none have na: "\<not> answered" by simp
  with loop have "Answer m = Answer ?m0"
    using unanswered_keeps_Answer [of "records st" "Questions r" ?m0 False] by simp
  then have "Answer m = []" by (simp add: SetReply_def)
  with loop na upstream fails show ?thesis
    by (simp add: handleDNSRequest_def)
qed

theorem servfail_when_forwarding_fails_witness:
  "Rcode (WriteMsg (handleDNSRequest config_yaml (host (Scanner zones_txt False) (Some 1) None)
      \<lparr>records = readme_zone, hostsFileModTime = 1\<rparr> (query ''ghost.local.'' TypeA))) =
     RcodeServerFailure \<and>
   Answer (WriteMsg (handleDNSRequest config_yaml (host (Scanner zones_txt False) (Some 1) None)
      \<lparr>records = readme_zone, hostsFileModTime = 1\<rparr> (query ''ghost.local.'' TypeA))) = []"
proof -
  let ?st = "\<lparr>records = readme_zone, hostsFileModTime = 1\<rparr>"
  let ?r = "query ''ghost.local.'' TypeA"
  let ?env = "host (Scanner zones_txt False) (Some 1) None"
  have none: "\<not> list_ex (\<lambda>q. snd (answer_question (records ?st) q (SetReply ?r, False)))
                  (Questions ?r)"
    by code_simp
  have upstream: "FallbackDNS config_yaml \<noteq> []"
    by (simp add: config_yaml_def)
  have fails: "Exchange ?env ?r (FallbackDNS config_yaml) = None"
    by (simp add: host_def)
  show ?thesis
    by (rule servfail_when_forwarding_fails [OF none upstream fails])
qed

text \<open>
  Claim C6. The handler calls \<open>forwardToFallback\<close> exactly when an upstream address is
  configured and no question of the whole request produced an answer, and then once,
  with the request as it came. One answered question is enough to keep the request
  local, whatever the other questions did.
\<close>

theorem forwarding_iff_unanswered_and_configured:
  "forwards (handleDNSRequest config env st r) =
     (if FallbackDNS config \<noteq> [] \<and>
         \<not> list_ex (\<lambda>q. snd (answer_question (records st) q (SetReply r, False))) (Questions r)
      then [(r, FallbackDNS config)] else [])"
proof -
  let ?m0 = "(SetReply r)\<lparr>Authoritative := True\<rparr>"
  obtain m answered where loop: "answer_questions (records st) (Questions r) (?m0, False) = (m, answered)"
    by (cases "answer_questions (records st) (Questions r) (?m0, False)")
  have "answered = list_ex (\<lambda>q. snd (answer_question (records st) q (SetReply r, False))) (Questions r)"
    using answered_questions [of "records st" "Questions r" ?m0 False "SetReply r"] loop by simp
  with loop show ?thesis
    by (simp add: handleDNSRequest_def split: option.split)
qed

theorem forwarding_iff_unanswered_and_configured_witness:
  "forwards (handleDNSRequest config_yaml (host (Scanner zones_txt False) (Some 1) None)
      \<lparr>records = readme_zone, hostsFileModTime = 1\<rparr>
      ((query ''example.local.'' TypeA)
         \<lparr>Questions := [\<lparr>Name = ''ghost.local.'', Qtype = TypeA, Qclass = ClassINET\<rparr>,
                        \<lparr>Name = ''example.local.'', Qtype = TypeA, Qclass = ClassINET\<rparr>]\<rparr>)) = [] \<and>
   forwards (handleDNSRequest config_yaml (host (Scanner zones_txt False) (Some 1) None)
      \<lparr>records = readme_zone, hostsFileModTime = 1\<rparr> (query ''ghost.local.'' TypeA)) =
     [(query ''ghost.local.'' TypeA, ''8.8.8.8:53'')]"
proof -
  let ?st = "\<lparr>records = readme_zone, hostsFileModTime = 1\<rparr>"
  let ?env = "host (Scanner zones_txt False) (Some 1) None"
  let ?r2 = "(query ''example.local.'' TypeA)
         \<lparr>Questions := [\<lparr>Name = ''ghost.local.'', Qtype = TypeA, Qclass = ClassINET\<rparr>,
                        \<lparr>Name = ''example.local.'', Qtype = TypeA, Qclass = ClassINET\<rparr>]\<rparr>"
  let ?r1 = "query ''ghost.local.'' TypeA"
  have two: "list_ex (\<lambda>q. snd (answer_question (records ?st) q (SetReply ?r2, False)))
                  (Questions ?r2)"
    by code_simp
  have one: "\<not> list_ex (\<lambda>q. snd (answer_question (records ?st) q (SetReply ?r1, False)))
                  (Questions ?r1)"
    by code_simp
  have addr: "FallbackDNS config_yaml = ''8.8.8.8:53''"
    by (simp add: config_yaml_def)
  have "forwards (handleDNSRequest config_yaml ?env ?st ?r2) = []"
    using forwarding_iff_unanswered_and_configured [of config_yaml ?env ?st ?r2] two
    by (simp only: simp_thms if_False)
  moreover have "forwards (handleDNSRequest config_yaml ?env ?st ?r1) = [(?r1, ''8.8.8.8:53'')]"
    using forwarding_iff_unanswered_and_configured [of config_yaml ?env ?st ?r1] one addr
    by simp
  ultimately show ?thesis by (rule conjI)
qed

subsection \<open>Questions of other types\<close>

text \<open>
  Claim C7. For a question whose type is none of \<open>A\<close>, \<open>CNAME\<close>, \<open>TXT\<close> and \<open>MX\<close>: when
  the map has a record of any type under the normalized name, the code of the reply
  \<open>m\<close> is set to NOTIMPLEMENTED, nothing is added to the answer and the flag is left as
  it is; when the map has no record under that name, the question leaves \<open>m\<close> and the
  flag untouched. When the handler writes \<open>m\<close> for a request of that one question (it
  did not forward it), the code sent is NOTIMPLEMENTED in the first case and the success
  code in the second.
\<close>

theorem other_query_types_not_implemented:
  assumes other: "Qtype q \<notin> {TypeA, TypeCNAME, TypeTXT, TypeMX}"
  shows "answer_question recs q (m, answered) =
           (case recs (Fqdn (ToLower (Name q))) of
              None \<Rightarrow> (m, answered)
            | Some rec \<Rightarrow> (m\<lparr>Rcode := RcodeNotImplemented\<rparr>, answered)) \<and>
         (Questions r = [q] \<and> forwards (handleDNSRequest config env st r) = [] \<longrightarrow>
            Rcode (WriteMsg (handleDNSRequest config env st r)) =
              (if records st (Fqdn (ToLower (Name q))) = None then RcodeSuccess
               else RcodeNotImplemented))"
proof -
  have step: "answer_question recs q (m, answered) =
           (case recs (Fqdn (ToLower (Name q))) of
              None \<Rightarrow> (m, answered)
            | Some rec \<Rightarrow> (m\<lparr>Rcode := RcodeNotImplemented\<rparr>, answered))"
    using other by (simp add: answer_question_def split: option.split)
  have sent: "Rcode (WriteMsg (handleDNSRequest config env st r)) =
              (if records st (Fqdn (ToLower (Name q))) = None then RcodeSuccess
               else RcodeNotImplemented)"
    if one: "Questions r = [q]" and local: "forwards (handleDNSRequest config env st r) = []"
  proof -
    let ?m0 = "(SetReply r)\<lparr>Authoritative := True\<rparr>"
    obtain m1 a1 where loop: "answer_questions (records st) (Questions r) (?m0, False) = (m1, a1)"
      by (cases "answer_questions (records st) (Questions r) (?m0, False)")
    have "Rcode m1 = (if records st (Fqdn (ToLower (Name q))) = None then RcodeSuccess
               else RcodeNotImplemented)"
      using Rcode_answer_questions [of "records st" "Questions r" ?m0 False] loop one other
      by (simp add: SetReply_def)
    moreover have "WriteMsg (handleDNSRequest config env st r) = m1"
      using local_reply [OF local] loop by simp
    ultimately show ?thesis by simp
  qed
  from step sent show ?thesis by blast
qed

theorem other_query_types_not_implemented_witness:
  "answer_question readme_zone \<lparr>Name = ''example.local.'', Qtype = 28, Qclass = ClassINET\<rparr>
     (SetReply (query ''example.local.'' 28), False) =
     ((SetReply (query ''example.local.'' 28))\<lparr>Rcode := RcodeNotImplemented\<rparr>, False) \<and>
   answer_question readme_zone \<lparr>Name = ''ghost.local.'', Qtype = 28, Qclass = ClassINET\<rparr>
     (SetReply (query ''ghost.local.'' 28), False) =
     (SetReply (query ''ghost.local.'' 28), False)"
proof -
  let ?q1 = "\<lparr>Name = ''example.local.'', Qtype = 28, Qclass = ClassINET\<rparr>"
  let ?q2 = "\<lparr>Name = ''ghost.local.'', Qtype = 28, Qclass = ClassINET\<rparr>"
  have o1: "Qtype ?q1 \<notin> {TypeA, TypeCNAME, TypeTXT, TypeMX}"
    by (simp add: TypeA_def TypeCNAME_def TypeTXT_def TypeMX_def)
  have o2: "Qtype ?q2 \<notin> {TypeA, TypeCNAME, TypeTXT, TypeMX}"
    by (simp add: TypeA_def TypeCNAME_def TypeTXT_def TypeMX_def)
  have l1: "readme_zone (Fqdn (ToLower (Name ?q1))) =
              Some \<lparr>Type = ''A'', TTL = 300, Data = ''127.0.0.1'', Pref = 0\<rparr>"
    by code_simp
  have l2: "readme_zone (Fqdn (ToLower (Name ?q2))) = None"
    by code_simp
  from other_query_types_not_implemented [OF o1, of readme_zone "SetReply (query ''example.local.'' 28)" False]
       other_query_types_not_implemented [OF o2, of readme_zone "SetReply (query ''ghost.local.'' 28)" False]
  show ?thesis
    by (simp only: l1 l2 option.case simp_thms)
qed

subsection \<open>One record for each name\<close>

lemma zone_lines_append:
  "zone_lines dn n (xs @ ys) recs out =
     zone_lines dn (n + length xs) ys
       (fst (zone_lines dn n xs recs out)) (snd (zone_lines dn n xs recs out))"
  by (induction xs arbitrary: n recs out) (simp_all split: line_effect.split)

lemma undefined_name_kept:
  "\<not> list_ex (\<lambda>l. line_defines dn l name) ys \<Longrightarrow>
   fst (zone_lines dn n ys recs out) name = recs name"
proof (induction ys arbitrary: n recs out)
  case Nil
  show ?case by simp
next
  case (Cons y ys)
  from Cons.prems have y: "\<not> line_defines dn y name"
    and ys: "\<not> list_ex (\<lambda>l. line_defines dn l name) ys"
    by simp_all
  show ?case
  proof (cases "zone_line dn y")
    case Skip
    with Cons.IH [OF ys] show ?thesis by simp
  next
    case (Log d)
    with Cons.IH [OF ys] show ?thesis by simp
  next
    case (Assign k r)
    with y have other: "k \<noteq> name" by (simp add: line_defines_def)
    have "fst (zone_lines dn n (y # ys) recs out) name =
          fst (zone_lines dn (n + 1) ys (recs(k \<mapsto> r)) out) name"
      by (simp only: zone_lines.simps Assign line_effect.case)
    also have "\<dots> = (recs(k \<mapsto> r)) name"
      by (rule Cons.IH [OF ys])
    also have "\<dots> = recs name"
      using other by simp
    finally show ?thesis .
  qed
qed

lemma earlier_definition_overwritten:
  assumes later: "zone_line dn l2 = Assign name r2"
  shows "zone_lines dn n (ys @ l2 # zs) (recs(name \<mapsto> r1)) out =
         zone_lines dn n (ys @ l2 # zs) recs out"
proof (induction ys arbitrary: n recs out)
  case Nil
  have "(recs(name \<mapsto> r1))(name \<mapsto> r2) = recs(name \<mapsto> r2)"
    by simp
  then show ?case
    by (simp only: append_Nil zone_lines.simps later line_effect.case)
next
  case (Cons y ys)
  show ?case
  proof (cases "zone_line dn y")
    case Skip
    with Cons show ?thesis by simp
  next
    case (Log d)
    with Cons show ?thesis by simp
  next
    case (Assign k r)
    have step: "zone_lines dn n ((y # ys) @ l2 # zs) R out =
                zone_lines dn (n + 1) (ys @ l2 # zs) (R(k \<mapsto> r)) out" for R
      by (simp only: append_Cons zone_lines.simps Assign line_effect.case)
    show ?thesis
    proof (cases "k = name")
      case True
      then have "(recs(name \<mapsto> r1))(k \<mapsto> r) = recs(k \<mapsto> r)"
        by simp
      then show ?thesis by (simp only: step)
    next
      case False
      then have "(recs(name \<mapsto> r1))(k \<mapsto> r) = (recs(k \<mapsto> r))(name \<mapsto> r1)"
        by (simp add: fun_upd_twist)
      then show ?thesis
        by (simp only: step Cons [of "n + 1" "recs(k \<mapsto> r)" out])
    qed
  qed
qed

lemma blank_line_skipped: "zone_line dn [] = Skip"
  by (simp add: zone_line_def TrimSpace_def trailing_space_width_def)

text \<open>
  Claim C8. The store is a map, so a name has at most one record in it. When two lines
  of the file define the same name and no line after the second does, the map returned
  holds the record of the second line under that name, whatever the types of the two
  records; and the first of the two lines is replaced without a trace: the map, the
  error and the diagnostics are those of the same file with that line left blank.
\<close>

theorem later_definition_replaces_earlier:
  assumes earlier: "zone_line dn l1 = Assign name r1"
      and later: "zone_line dn l2 = Assign name r2"
      and last: "\<not> list_ex (\<lambda>l. line_defines dn l name) zs"
      and scanned: "Open env path = Scanner (xs @ l1 # ys @ l2 # zs) failed"
  shows "fst (loadZoneFile dn env path) name = Some r2 \<and>
         loadZoneFile dn env path =
           loadZoneFile dn
             (env\<lparr>Open := (Open env)(path := Scanner (xs @ [] # ys @ l2 # zs) failed)\<rparr>) path"
proof -
  let ?r = "fst (zone_lines dn 0 xs Map.empty [])"
  let ?o = "snd (zone_lines dn 0 xs Map.empty [])"
  let ?n = "length xs"
  have same: "zone_lines dn 0 (xs @ l1 # ys @ l2 # zs) Map.empty [] =
              zone_lines dn 0 (xs @ [] # ys @ l2 # zs) Map.empty []"
    using earlier earlier_definition_overwritten [OF later, of "Suc ?n" ys zs ?r r1 ?o]
    by (simp add: zone_lines_append [of dn 0 xs] blank_line_skipped)
  have "zone_lines dn 0 (xs @ l1 # ys @ l2 # zs) Map.empty [] =
        zone_lines dn 0 ((xs @ l1 # ys) @ l2 # zs) Map.empty []"
    by simp
  also have "\<dots> = zone_lines dn (Suc (length (xs @ l1 # ys))) zs
       ((fst (zone_lines dn 0 (xs @ l1 # ys) Map.empty []))(name \<mapsto> r2))
       (snd (zone_lines dn 0 (xs @ l1 # ys) Map.empty []))"
    by (simp only: zone_lines_append [of dn 0 "xs @ l1 # ys"])
       (simp add: later)
  finally have "fst (zone_lines dn 0 (xs @ l1 # ys @ l2 # zs) Map.empty []) name = Some r2"
    by (simp add: undefined_name_kept [OF last])
  with same scanned show ?thesis
    by (simp add: loadZoneFile_def case_prod_beta)
qed

theorem later_definition_replaces_earlier_witness:
  "fst (loadZoneFile nonempty_name
          (host (Scanner [''dup.local. 60 IN A 10.0.0.1'', ''dup.local. 120 IN TXT hello''] False)
             (Some 1) None) ''zones.txt'') ''dup.local.'' =
     Some \<lparr>Type = ''TXT'', TTL = 120, Data = ''hello'', Pref = 0\<rparr>"
proof -
  let ?l1 = "''dup.local. 60 IN A 10.0.0.1''" and ?l2 = "''dup.local. 120 IN TXT hello''"
  let ?env = "host (Scanner [?l1, ?l2] False) (Some 1) None"
  have earlier: "zone_line nonempty_name ?l1 =
      Assign ''dup.local.'' \<lparr>Type = ''A'', TTL = 60, Data = ''10.0.0.1'', Pref = 0\<rparr>"
    by code_simp
  have later: "zone_line nonempty_name ?l2 =
      Assign ''dup.local.'' \<lparr>Type = ''TXT'', TTL = 120, Data = ''hello'', Pref = 0\<rparr>"
    by code_simp
  have last: "\<not> list_ex (\<lambda>l. line_defines nonempty_name l ''dup.local.'') []"
    by simp
  have scanned: "Open ?env ''zones.txt'' = Scanner ([] @ ?l1 # [] @ ?l2 # []) False"
    by (simp add: host_def)
  from later_definition_replaces_earlier [OF earlier later last scanned]
  show ?thesis by (rule conjunct1)
qed

subsection \<open>A records and IPv6 literals\<close>

text \<open>
  Claim C10. An \<open>A\<close> line is accepted as soon as \<open>net.ParseIP\<close> takes its data field,
  IPv6 literals included, and the record keeps the field as text. A question of type
  \<open>A\<close> that finds such a record is counted as answered, with the address
  \<open>net.ParseIP(rec.Data).To4()\<close>: \<open>nil\<close> whenever the literal has no 4-byte form.
\<close>

theorem A_line_accepts_any_IP_literal:
  assumes line: "TrimSpace text = line" "line \<noteq> []"
                "\<not> HasPrefix line '';''" "\<not> HasPrefix line ''#''"
      and fields: "Fields line = fs" "5 \<le> length fs"
      and ttl: "ParseUint32 (fs ! 1) = Some ttl"
      and "class": "ToUpper (fs ! 2) = ''IN''"
      and rtype: "ToUpper (fs ! 3) = ''A''"
      and valid: "ParseIP (fs ! 4) = Some ip"
  shows "zone_line dn text =
           Assign (Fqdn (fs ! 0)) \<lparr>Type = ''A'', TTL = word_of_int ttl, Data = fs ! 4, Pref = 0\<rparr> \<and>
         (To4 (Some ip) = None \<and> Qtype q = TypeA \<and>
          recs (Fqdn (ToLower (Name q))) =
            Some \<lparr>Type = ''A'', TTL = word_of_int ttl, Data = fs ! 4, Pref = 0\<rparr> \<longrightarrow>
          answer_question recs q (m, answered) =
            (m\<lparr>Answer := Answer m @
                [RR_A \<lparr>Hdr_Name = Name q, Rrtype = TypeA, Class = ClassINET, Ttl = word_of_int ttl\<rparr>
                   None]\<rparr>, True))"
proof -
  have accepted: "zone_line dn text =
           Assign (Fqdn (fs ! 0)) \<lparr>Type = ''A'', TTL = word_of_int ttl, Data = fs ! 4, Pref = 0\<rparr>"
    using assms by (simp add: zone_line_def)
  have answer: "answer_question recs q (m, answered) =
            (m\<lparr>Answer := Answer m @
                [RR_A \<lparr>Hdr_Name = Name q, Rrtype = TypeA, Class = ClassINET, Ttl = word_of_int ttl\<rparr>
                   None]\<rparr>, True)"
    if "To4 (Some ip) = None" "Qtype q = TypeA"
       "recs (Fqdn (ToLower (Name q))) =
            Some \<lparr>Type = ''A'', TTL = word_of_int ttl, Data = fs ! 4, Pref = 0\<rparr>"
    using that valid by (simp add: answer_question_def)
  from accepted answer show ?thesis by blast
qed

theorem A_line_accepts_any_IP_literal_witness:
  "zone_line nonempty_name ''v6.local. 300 IN A 2001:db8::1'' =
     Assign ''v6.local.'' \<lparr>Type = ''A'', TTL = 300, Data = ''2001:db8::1'', Pref = 0\<rparr> \<and>
   answer_question
     [''v6.local.'' \<mapsto> \<lparr>Type = ''A'', TTL = 300, Data = ''2001:db8::1'', Pref = 0\<rparr>]
     \<lparr>Name = ''v6.local.'', Qtype = TypeA, Qclass = ClassINET\<rparr>
     (SetReply (query ''v6.local.'' TypeA), False) =
     ((SetReply (query ''v6.local.'' TypeA))
        \<lparr>Answer := [RR_A \<lparr>Hdr_Name = ''v6.local.'', Rrtype = TypeA, Class = ClassINET, Ttl = 300\<rparr>
                       None]\<rparr>, True)"
proof -
  let ?text = "''v6.local. 300 IN A 2001:db8::1''"
  let ?fs = "[''v6.local.'', ''300'', ''IN'', ''A'', ''2001:db8::1'']"
  let ?ip = "[0x20, 0x01, 0x0d, 0xb8, 0, 0, 0, 0, 0, 0, 0, 0, 0, 0, 0, 1] :: IP"
  let ?q = "\<lparr>Name = ''v6.local.'', Qtype = TypeA, Qclass = ClassINET\<rparr>"
  let ?recs = "[''v6.local.'' \<mapsto> \<lparr>Type = ''A'', TTL = 300, Data = ''2001:db8::1'', Pref = 0\<rparr>]"
  have line: "TrimSpace ?text = ?text" "?text \<noteq> []"
             "\<not> HasPrefix ?text '';''" "\<not> HasPrefix ?text ''#''"
    by code_simp+
  have fields: "Fields ?text = ?fs" "5 \<le> length ?fs"
    by code_simp+
  have ttl: "ParseUint32 (?fs ! 1) = Some 300" by code_simp
  have cl: "ToUpper (?fs ! 2) = ''IN''" by code_simp
  have ty: "ToUpper (?fs ! 3) = ''A''" by code_simp
  have valid: "ParseIP (?fs ! 4) = Some ?ip" by code_simp
  have v6: "To4 (Some ?ip) = None" by code_simp
  have hit: "?recs (Fqdn (ToLower (Name ?q))) =
     Some \<lparr>Type = ''A'', TTL = word_of_int 300, Data = ?fs ! 4, Pref = 0\<rparr>"
    by code_simp
  have qt: "Qtype ?q = TypeA" by simp
  have name: "Fqdn (?fs ! 0) = ''v6.local.''" by code_simp
  note line_and_answer = A_line_accepts_any_IP_literal [OF line fields ttl cl ty valid,
         of nonempty_name ?q ?recs "SetReply (query ''v6.local.'' TypeA)" False]
  from line_and_answer have accepted: "zone_line nonempty_name ?text =
      Assign (Fqdn (?fs ! 0)) \<lparr>Type = ''A'', TTL = word_of_int 300, Data = ?fs ! 4, Pref = 0\<rparr>"
    by (rule conjunct1)
  from line_and_answer v6 qt hit have answer:
    "answer_question ?recs ?q (SetReply (query ''v6.local.'' TypeA), False) =
       ((SetReply (query ''v6.local.'' TypeA))
          \<lparr>Answer := Answer (SetReply (query ''v6.local.'' TypeA)) @
             [RR_A \<lparr>Hdr_Name = Name ?q, Rrtype = TypeA, Class = ClassINET, Ttl = word_of_int 300\<rparr>
                None]\<rparr>, True)"
    by blast
  from accepted answer name show ?thesis
    by (simp add: SetReply_def)
qed

subsection \<open>Reloading\<close>

lemma load_error_iff:
  "fst (snd (loadZoneFile dn env path)) \<noteq> None \<longleftrightarrow>
     Open env path = OpenFails \<or> (\<exists>lines. Open env path = Scanner lines True)"
  by (cases "Open env path") (auto simp: loadZoneFile_def case_prod_beta)

text \<open>
  Claim C4. In a turn of the reload loop that finds a modification time after the
  recorded one, when \<open>loadZoneFile\<close> returns an error (the file cannot be opened, or the
  scanner reports an error) the map and the recorded time stay as they were, and the
  loop goes on with its next turns from the same state.
\<close>

theorem failed_reload_keeps_snapshot:
  assumes newer: "Stat env (HostsFile config) = Some modTime" "modTime > hostsFileModTime st"
      and fails: "fst (snd (loadZoneFile dn env (HostsFile config))) \<noteq> None"
  shows "reload_turn dn config env st = st \<and>
         reloadZoneIfChanged dn config (env # envs) st = reloadZoneIfChanged dn config envs st"
proof -
  obtain recs err out where load: "loadZoneFile dn env (HostsFile config) = (recs, err, out)"
    by (cases "loadZoneFile dn env (HostsFile config)")
  with fails obtain e where "err = Some e" by auto
  with load newer have "reload_turn dn config env st = st"
    by (simp add: reload_turn_def)
  then show ?thesis by simp
qed

theorem failed_reload_keeps_snapshot_witness:
  "reload_turn nonempty_name config_yaml
     (host (Scanner [''new.local. 60 IN A 9.9.9.9''] True) (Some 2) None)
     \<lparr>records = readme_zone, hostsFileModTime = 1\<rparr> =
   \<lparr>records = readme_zone, hostsFileModTime = 1\<rparr>"
proof -
  let ?env = "host (Scanner [''new.local. 60 IN A 9.9.9.9''] True) (Some 2) None"
  let ?st = "\<lparr>records = readme_zone, hostsFileModTime = 1\<rparr>"
  have stat: "Stat ?env (HostsFile config_yaml) = Some 2"
    by (simp add: host_def config_yaml_def)
  have newer: "2 > hostsFileModTime ?st" by simp
  have fails: "fst (snd (loadZoneFile nonempty_name ?env (HostsFile config_yaml))) \<noteq> None"
    by (simp add: loadZoneFile_def host_def config_yaml_def case_prod_beta)
  from failed_reload_keeps_snapshot [OF stat newer fails, of "[]"]
  show ?thesis by (rule conjunct1)
qed

subsection \<open>Starting\<close>

text \<open>
  Claim C2, as the program has it. The start is fatal on the load exactly when
  \<open>loadZoneFile\<close> returns an error, that is, when the file cannot be opened or the
  scanner reports an error. A file that gives no record at all is no error: the process
  goes on to serve, with an empty map.
\<close>

theorem startup_fatal_iff_load_error:
  "(\<exists>err. main dn config env = FatalLoad err) \<longleftrightarrow>
     Open env (HostsFile config) = OpenFails \<or>
     (\<exists>lines. Open env (HostsFile config) = Scanner lines True)"
proof -
  obtain recs err out where load: "loadZoneFile dn env (HostsFile config) = (recs, err, out)"
    by (cases "loadZoneFile dn env (HostsFile config)")
  have "(\<exists>e. main dn config env = FatalLoad e) \<longleftrightarrow> err \<noteq> None"
    using load by (cases err) (simp_all add: main_def Let_def)
  with load load_error_iff [of dn env "HostsFile config"] show ?thesis by simp
qed

theorem startup_fatal_iff_load_error_witness:
  "\<exists>err. main nonempty_name config_yaml (host OpenFails None None) = FatalLoad err"
proof -
  have "Open (host OpenFails None None) (HostsFile config_yaml) = OpenFails"
    by (simp add: host_def)
  then show ?thesis
    using startup_fatal_iff_load_error [of nonempty_name config_yaml "host OpenFails None None"]
    by blast
qed

text \<open>
  A zone file with a comment and a line whose TTL is not a number gives no record; the
  process starts serving all the same.
\<close>

theorem zero_record_zone_serves_counterexample:
  "main nonempty_name config_yaml
     (host (Scanner [''; no records here'', ''bad.local. notanumber IN A 1.2.3.4''] False)
        (Some 1) None) =
   Serving \<lparr>records = Map.empty, hostsFileModTime = 1\<rparr>"
proof -
  have comment: "zone_line nonempty_name ''; no records here'' = Skip"
    by code_simp
  have bad: "zone_line nonempty_name ''bad.local. notanumber IN A 1.2.3.4'' = Log InvalidTTL"
    by code_simp
  show ?thesis
    by (simp add: main_def loadZoneFile_def host_def config_yaml_def comment bad)
qed

end
